theory Spec2Isabelle
  imports Complex_Main
begin

section \<open>The backtest engine (src/backtesting/backtest_engine.py)\<close>

text \<open>
  Numbers. The engine computes with Python floats. They are modelled as exact reals:
  rounding is not modelled, so every statement below is about the arithmetic the code
  writes down, carried out exactly. What Python does where real arithmetic is undefined
  (a division by zero raises \<open>ZeroDivisionError\<close>) is written out as a branch.

  A close price is a finite number: NaN and the infinities are not among the prices.

  Timestamps. A bar's \<open>open_time\<close> is modelled as an integer number of nanoseconds since
  the epoch, the value a pandas \<open>Timestamp\<close> carries; \<open>day\<close> is 24 hours of them.
\<close>

type_synonym timestamp = int

definition day :: int where
  "day = 86400000000000"

datatype py_error = KeyError | ZeroDivisionError | ValueError

text \<open>
  A row of the price frame. The engine reads two columns of it, \<open>row['close']\<close> and
  \<open>row['open_time']\<close>; \<open>None\<close> stands for a column the frame does not have, where the
  subscript raises \<open>KeyError\<close>.
\<close>

record bar =
  open_time :: "timestamp option"
  close :: "real option"

text \<open>The dictionaries appended to \<open>self.trades\<close>: one shape per order side.\<close>

datatype trade =
    is_BUY: BUY (trade_timestamp: timestamp) (trade_price: real) (trade_quantity: real)
        (trade_cost: real) (trade_balance: real)
  | is_SELL: SELL (trade_timestamp: timestamp) (trade_price: real) (trade_quantity: real)
         (trade_revenue: real) (trade_profit: real) (trade_profit_pct: real)
         (trade_balance: real)

text \<open>The dictionaries appended to \<open>self.equity_curve\<close>.\<close>

record equity_point =
  timestamp :: timestamp
  portfolio_value :: real
  price :: real

text \<open>The attributes of a \<open>BacktestEngine\<close> object.\<close>

record engine =
  initial_balance :: real
  balance :: real
  commission :: real
  position :: real
  entry_price :: real
  trades :: "trade list"
  equity_curve :: "equity_point list"

text \<open>\<open>__init__\<close>: no check on either parameter, no raise.\<close>

definition BacktestEngine :: "real \<Rightarrow> real \<Rightarrow> engine" where
  "BacktestEngine initial_balance' commission' =
     \<lparr>initial_balance = initial_balance', balance = initial_balance',
      commission = commission', position = 0, entry_price = 0,
      trades = [], equity_curve = []\<rparr>"

text \<open>
  \<open>buy\<close> returns the boolean together with the engine as the call leaves it. It has no
  division and no subscript, so it cannot raise.
\<close>

definition buy :: "engine \<Rightarrow> real \<Rightarrow> real \<Rightarrow> timestamp \<Rightarrow> bool \<times> engine" where
  "buy e price' quantity ts =
     (let cost = quantity * price' * (1 + commission e) in
      if cost \<le> balance e then
        (let e1 = e\<lparr>balance := balance e - cost\<rparr>;
             e2 = e1\<lparr>position := position e1 + quantity\<rparr>;
             e3 = e2\<lparr>entry_price := price'\<rparr>
         in (True, e3\<lparr>trades := trades e3 @ [BUY ts price' quantity cost (balance e3)]\<rparr>))
      else (False, e))"

text \<open>
  \<open>sell\<close>: the balance and the position are updated before \<open>profit_pct\<close> divides by
  \<open>self.entry_price\<close>. When that is zero Python raises \<open>ZeroDivisionError\<close> at this line:
  the two updates have happened and no trade has been appended. The result is the error
  or the boolean, together with the engine as the call leaves it.
\<close>

definition sell :: "engine \<Rightarrow> real \<Rightarrow> real \<Rightarrow> timestamp \<Rightarrow> (py_error + bool) \<times> engine" where
  "sell e price' quantity ts =
     (if quantity \<le> position e then
        (let revenue = quantity * price' * (1 - commission e);
             e1 = e\<lparr>balance := balance e + revenue\<rparr>;
             e2 = e1\<lparr>position := position e1 - quantity\<rparr>;
             profit = (price' - entry_price e2) * quantity
         in if entry_price e2 = 0 then (Inl ZeroDivisionError, e2)
            else
              (let profit_pct = ((price' - entry_price e2) / entry_price e2) * 100
               in (Inr True,
                   e2\<lparr>trades := trades e2 @
                      [SELL ts price' quantity revenue profit profit_pct (balance e2)]\<rparr>)))
      else (Inr False, e))"

definition get_portfolio_value :: "engine \<Rightarrow> real \<Rightarrow> real" where
  "get_portfolio_value e current_price = balance e + (position e * current_price)"

text \<open>
  The strategy is a parameter: \<open>strategy_func(df, i)\<close> sees the whole frame and the row's
  index and returns the signal, compared with \<open>1\<close> and \<open>-1\<close>. It is taken to be a pure,
  total function. The frame's index is taken to be the default one, \<open>0, 1, 2, ...\<close>.
\<close>

type_synonym strategy = "bar list \<Rightarrow> nat \<Rightarrow> int"

text \<open>
  The \<open>if\<close>/\<open>elif\<close> of the loop body. \<open>self.balance / current_price\<close> raises
  \<open>ZeroDivisionError\<close> on a zero price (both operands are Python numbers), before \<open>buy\<close> is
  called. The booleans that \<open>buy\<close> and \<open>sell\<close> return are dropped, as in the source.
\<close>

definition execute_signal ::
  "engine \<Rightarrow> int \<Rightarrow> real \<Rightarrow> timestamp \<Rightarrow> (py_error + unit) \<times> engine" where
  "execute_signal e signal current_price ts =
     (if signal = 1 \<and> position e = 0 then
        (if current_price = 0 then (Inl ZeroDivisionError, e)
         else
           (let quantity = balance e / current_price * (95 / 100)
            in (Inr (), snd (buy e current_price quantity ts))))
      else if signal = - 1 \<and> position e > 0 then
        (case sell e current_price (position e) ts of
           (Inl err, e') \<Rightarrow> (Inl err, e')
         | (Inr _, e') \<Rightarrow> (Inr (), e'))
      else (Inr (), e))"

text \<open>One iteration of \<open>for i, row in df.iterrows()\<close>.\<close>

definition process_row ::
  "strategy \<Rightarrow> bar list \<Rightarrow> engine \<Rightarrow> nat \<times> bar \<Rightarrow> (py_error + unit) \<times> engine" where
  "process_row strategy_func df e ir =
     (case close (snd ir) of
        None \<Rightarrow> (Inl KeyError, e)
      | Some current_price \<Rightarrow>
          (case open_time (snd ir) of
             None \<Rightarrow> (Inl KeyError, e)
           | Some ts \<Rightarrow>
               (case execute_signal e (strategy_func df (fst ir)) current_price ts of
                  (Inl err, e') \<Rightarrow> (Inl err, e')
                | (Inr _, e') \<Rightarrow>
                    (Inr (),
                     e'\<lparr>equity_curve := equity_curve e' @
                         [\<lparr>timestamp = ts,
                           portfolio_value = get_portfolio_value e' current_price,
                           price = current_price\<rparr>]\<rparr>))))"

text \<open>The loop over the rows still to come; it stops at the first raise.\<close>

fun iterrows_loop ::
  "strategy \<Rightarrow> bar list \<Rightarrow> engine \<Rightarrow> (nat \<times> bar) list \<Rightarrow> (py_error + unit) \<times> engine" where
  "iterrows_loop strategy_func df e [] = (Inr (), e)"
| "iterrows_loop strategy_func df e (ir # rest) =
     (case process_row strategy_func df e ir of
        (Inl err, e') \<Rightarrow> (Inl err, e')
      | (Inr _, e') \<Rightarrow> iterrows_loop strategy_func df e' rest)"

definition iterrows :: "bar list \<Rightarrow> (nat \<times> bar) list" where
  "iterrows df = zip [0..<length df] df"

definition run_backtest ::
  "engine \<Rightarrow> bar list \<Rightarrow> strategy \<Rightarrow> (py_error + unit) \<times> engine" where
  "run_backtest e df strategy_func = iterrows_loop strategy_func df e (iterrows df)"

text \<open>The engine after the first \<open>k\<close> iterations of the loop of \<open>run_backtest\<close>.\<close>

definition engine_after ::
  "strategy \<Rightarrow> bar list \<Rightarrow> engine \<Rightarrow> nat \<Rightarrow> (py_error + unit) \<times> engine" where
  "engine_after strategy_func df e k =
     iterrows_loop strategy_func df e (take k (iterrows df))"

text \<open>
  \<open>get_performance_metrics\<close> returns either the dictionary with the key \<open>error\<close> or the
  dictionary of metrics. \<open>total_return_pct\<close> divides by \<open>self.initial_balance\<close>, which
  raises on zero.
\<close>

record metrics =
  total_trades :: nat
  winning_trades :: nat
  losing_trades :: nat
  win_rate :: real
  total_return :: real
  total_return_pct :: real
  avg_profit :: real
  avg_profit_pct :: real
  max_profit :: real
  max_loss :: real
  final_balance :: real
  final_position :: real

datatype metrics_result = Error string | Metrics metrics

definition np_mean :: "real list \<Rightarrow> real" where
  "np_mean xs = sum_list xs / real (length xs)"

definition get_performance_metrics :: "engine \<Rightarrow> py_error + metrics_result" where
  "get_performance_metrics e =
     (if trades e = [] then Inr (Error ''No trades executed'')
      else
        (let sell_trades = filter is_SELL (trades e) in
         if sell_trades = [] then Inr (Error ''No sell trades executed'')
         else
           (let profits = map trade_profit sell_trades;
                profit_pcts = map trade_profit_pct sell_trades;
                total_return' = sum_list profits
            in if initial_balance e = 0 then Inl ZeroDivisionError
               else
                 (let total_return_pct' =
                        ((get_portfolio_value e (trade_price (last (trades e)))
                          - initial_balance e) / initial_balance e) * 100;
                      win_trades = filter (\<lambda>p. p > 0) profits;
                      lose_trades = filter (\<lambda>p. p < 0) profits
                  in Inr (Metrics
                       \<lparr>total_trades = length sell_trades,
                        winning_trades = length win_trades,
                        losing_trades = length lose_trades,
                        win_rate = real (length win_trades) / real (length sell_trades) * 100,
                        total_return = total_return',
                        total_return_pct = total_return_pct',
                        avg_profit = np_mean profits,
                        avg_profit_pct = np_mean profit_pcts,
                        max_profit = Max (set profits),
                        max_loss = Min (set profits),
                        final_balance = balance e,
                        final_position = position e\<rparr>)))))"

text \<open>
  The scenario of the specification: closes \<open>100, 110, 90, 120\<close>, one bar a day, and the
  signals Buy, Hold, Sell, Hold as \<open>1, 0, -1, 0\<close>.
\<close>

definition scenario_bars :: "bar list" where
  "scenario_bars =
     [\<lparr>open_time = Some 0, close = Some 100\<rparr>,
      \<lparr>open_time = Some day, close = Some 110\<rparr>,
      \<lparr>open_time = Some (2 * day), close = Some 90\<rparr>,
      \<lparr>open_time = Some (3 * day), close = Some 120\<rparr>]"

definition scenario_signals :: strategy where
  "scenario_signals df i = [1, 0, - 1, 0] ! i"




text \<open>
  A row on which the loop body cannot raise: both columns present and a close price
  other than zero (no sign and no order of the timestamps is asked for).
\<close>

definition tradable :: "bar \<Rightarrow> bool" where
  "tradable r =
     (open_time r \<noteq> None \<and> (case close r of None \<Rightarrow> False | Some c \<Rightarrow> c \<noteq> 0))"

text \<open>While a position is open, \<open>entry_price\<close> is the non-zero price it was bought at.\<close>

definition entry_known :: "engine \<Rightarrow> bool" where
  "entry_known e = (0 < position e \<longrightarrow> entry_price e \<noteq> 0)"

section \<open>The analytics (src/backtesting/advanced_analytics.py)\<close>

text \<open>
  The analytics compute on pandas series of numpy floats. Their arithmetic never raises:
  a division by zero gives an infinity or NaN, which later operations carry along,
  \<open>dropna\<close> and the \<open>skipna\<close> reductions drop NaN, and a comparison with NaN is false.
  These special values are modelled; rounding and the sign of zero are not (a zero
  divisor counts as \<open>+0\<close>), so a finite result is the exact real one.
\<close>

datatype np_float = Fin real | PInf | NInf | NaN

fun np_neg :: "np_float \<Rightarrow> np_float" where
  "np_neg (Fin x) = Fin (- x)"
| "np_neg PInf = NInf"
| "np_neg NInf = PInf"
| "np_neg NaN = NaN"

fun np_add :: "np_float \<Rightarrow> np_float \<Rightarrow> np_float" where
  "np_add (Fin x) (Fin y) = Fin (x + y)"
| "np_add NaN b = NaN"
| "np_add a NaN = NaN"
| "np_add PInf NInf = NaN"
| "np_add NInf PInf = NaN"
| "np_add PInf b = PInf"
| "np_add a PInf = PInf"
| "np_add NInf b = NInf"
| "np_add a NInf = NInf"

definition np_sub :: "np_float \<Rightarrow> np_float \<Rightarrow> np_float" where
  "np_sub a b = np_add a (np_neg b)"

fun np_mul :: "np_float \<Rightarrow> np_float \<Rightarrow> np_float" where
  "np_mul (Fin x) (Fin y) = Fin (x * y)"
| "np_mul NaN b = NaN"
| "np_mul a NaN = NaN"
| "np_mul PInf (Fin y) = (if y = 0 then NaN else if 0 < y then PInf else NInf)"
| "np_mul NInf (Fin y) = (if y = 0 then NaN else if 0 < y then NInf else PInf)"
| "np_mul (Fin x) PInf = (if x = 0 then NaN else if 0 < x then PInf else NInf)"
| "np_mul (Fin x) NInf = (if x = 0 then NaN else if 0 < x then NInf else PInf)"
| "np_mul PInf PInf = PInf"
| "np_mul NInf NInf = PInf"
| "np_mul PInf NInf = NInf"
| "np_mul NInf PInf = NInf"

fun np_div :: "np_float \<Rightarrow> np_float \<Rightarrow> np_float" where
  "np_div (Fin x) (Fin y) =
     (if y \<noteq> 0 then Fin (x / y)
      else if 0 < x then PInf else if x < 0 then NInf else NaN)"
| "np_div NaN b = NaN"
| "np_div a NaN = NaN"
| "np_div (Fin x) PInf = Fin 0"
| "np_div (Fin x) NInf = Fin 0"
| "np_div PInf (Fin y) = (if 0 \<le> y then PInf else NInf)"
| "np_div NInf (Fin y) = (if 0 \<le> y then NInf else PInf)"
| "np_div PInf PInf = NaN"
| "np_div PInf NInf = NaN"
| "np_div NInf PInf = NaN"
| "np_div NInf NInf = NaN"

fun np_sqrt :: "np_float \<Rightarrow> np_float" where
  "np_sqrt (Fin x) = (if 0 \<le> x then Fin (sqrt x) else NaN)"
| "np_sqrt PInf = PInf"
| "np_sqrt NInf = NaN"
| "np_sqrt NaN = NaN"

fun np_less :: "np_float \<Rightarrow> np_float \<Rightarrow> bool" where
  "np_less (Fin x) (Fin y) = (x < y)"
| "np_less NaN b = False"
| "np_less a NaN = False"
| "np_less a NInf = False"
| "np_less PInf b = False"
| "np_less NInf b = True"
| "np_less a PInf = True"

subsection \<open>Series operations\<close>

text \<open>\<open>Series.expanding().max()\<close>: the running maximum.\<close>

fun running_max :: "real \<Rightarrow> real list \<Rightarrow> real list" where
  "running_max m [] = []"
| "running_max m (x # xs) = max m x # running_max (max m x) xs"

fun expanding_max :: "real list \<Rightarrow> real list" where
  "expanding_max [] = []"
| "expanding_max (x # xs) = x # running_max x xs"

text \<open>\<open>(portfolio_values - peak) / peak\<close>, element by element.\<close>

definition drawdown :: "real list \<Rightarrow> np_float list" where
  "drawdown pv = map2 (\<lambda>v p. np_div (Fin (v - p)) (Fin p)) pv (expanding_max pv)"

definition dropna :: "np_float list \<Rightarrow> np_float list" where
  "dropna xs = filter (\<lambda>x. x \<noteq> NaN) xs"

definition np_min :: "np_float \<Rightarrow> np_float \<Rightarrow> np_float" where
  "np_min a b = (if np_less b a then b else a)"

text \<open>\<open>Series.min()\<close> skips NaN; with nothing left it is NaN.\<close>

definition series_min :: "np_float list \<Rightarrow> np_float" where
  "series_min xs = (case dropna xs of [] \<Rightarrow> NaN | y # ys \<Rightarrow> fold np_min ys y)"

fun first_index :: "'a \<Rightarrow> 'a list \<Rightarrow> nat" where
  "first_index v [] = 0"
| "first_index v (x # xs) = (if x = v then 0 else Suc (first_index v xs))"

text \<open>
  \<open>Series.idxmin()\<close>: the label of the first occurrence of the minimum, NaN skipped. On
  an empty series it raises \<open>ValueError\<close>. On a series of NaN only, pandas 3 raises
  \<open>ValueError\<close> and earlier versions return NaN, on which the slice \<open>peak[:max_dd_idx]\<close>
  of the caller raises; the model raises \<open>ValueError\<close> there.
\<close>

definition idxmin :: "np_float list \<Rightarrow> py_error + nat" where
  "idxmin xs = (if series_min xs = NaN then Inl ValueError else Inr (first_index (series_min xs) xs))"

text \<open>
  \<open>Series.idxmax()\<close> on a series of finite values: the label of the first occurrence of
  the maximum; \<open>ValueError\<close> on an empty series.
\<close>

definition idxmax :: "real list \<Rightarrow> py_error + nat" where
  "idxmax xs = (if xs = [] then Inl ValueError else Inr (first_index (Max (set xs)) xs))"

text \<open>
  \<open>calculate_max_drawdown\<close>. The frame \<open>equity_df\<close> is the list of equity points, its
  index the positions. \<open>peak[:max_dd_idx]\<close> is a positional slice: the entries before
  \<open>max_dd_idx\<close>, without that entry itself.
\<close>

definition calculate_max_drawdown ::
  "equity_point list \<Rightarrow>
     py_error + (np_float \<times> np_float \<times> timestamp option \<times> timestamp option)" where
  "calculate_max_drawdown equity_df =
     (if equity_df = [] then Inr (Fin 0, Fin 0, None, None)
      else
        (let portfolio_values = map portfolio_value equity_df;
             peak = expanding_max portfolio_values;
             drawdown' = drawdown portfolio_values;
             max_dd = series_min drawdown';
             max_dd_pct = np_mul max_dd (Fin 100)
         in case idxmin drawdown' of
              Inl err \<Rightarrow> Inl err
            | Inr max_dd_idx \<Rightarrow>
                (case idxmax (take max_dd_idx peak) of
                   Inl err \<Rightarrow> Inl err
                 | Inr peak_idx \<Rightarrow>
                     (let start_date =
                            (if peak_idx < length equity_df
                             then Some (timestamp (equity_df ! peak_idx)) else None);
                          end_date =
                            (if max_dd_idx < length equity_df
                             then Some (timestamp (equity_df ! max_dd_idx)) else None)
                      in Inr (max_dd, max_dd_pct, start_date, end_date)))))"

text \<open>
  \<open>drawdown_analysis\<close>. The loop over \<open>enumerate(in_drawdown)\<close> carries \<open>start_idx\<close>; the
  periods come out in the order the source appends them. \<open>end_idx = i - 1\<close> is computed
  only after some earlier index has set \<open>start_idx\<close>, so \<open>i\<close> is at least 1 there.
  \<open>Timedelta.days\<close> is the number of whole days in the difference of the two
  timestamps, rounded down: days of the calendar, not a count of bars.
\<close>

record drawdown_period =
  start_date :: timestamp
  end_date :: timestamp
  duration_days :: int
  max_drawdown_pct :: np_float
  recovery_date :: timestamp

definition iloc_slice :: "'a list \<Rightarrow> nat \<Rightarrow> nat \<Rightarrow> 'a list" where
  "iloc_slice xs a b = take (b - a) (drop a xs)"

definition close_period :: "equity_point list \<Rightarrow> np_float list \<Rightarrow> nat \<Rightarrow> nat \<Rightarrow> drawdown_period" where
  "close_period equity_df drawdown' start_idx end_idx =
     (let period_dd = iloc_slice drawdown' start_idx (end_idx + 1);
          max_dd = series_min period_dd
      in \<lparr>start_date = timestamp (equity_df ! start_idx),
          end_date = timestamp (equity_df ! end_idx),
          duration_days =
            (timestamp (equity_df ! end_idx) - timestamp (equity_df ! start_idx)) div day,
          max_drawdown_pct = max_dd,
          recovery_date = timestamp (equity_df ! end_idx)\<rparr>)"

fun drawdown_loop ::
  "equity_point list \<Rightarrow> np_float list \<Rightarrow> nat option \<Rightarrow> (nat \<times> bool) list \<Rightarrow>
     drawdown_period list" where
  "drawdown_loop equity_df drawdown' start_idx [] = []"
| "drawdown_loop equity_df drawdown' start_idx ((i, is_dd) # rest) =
     (if is_dd \<and> start_idx = None then drawdown_loop equity_df drawdown' (Some i) rest
      else if \<not> is_dd \<and> start_idx \<noteq> None then
        close_period equity_df drawdown' (the start_idx) (i - 1) #
          drawdown_loop equity_df drawdown' None rest
      else drawdown_loop equity_df drawdown' start_idx rest)"

definition drawdown_pct :: "real list \<Rightarrow> np_float list" where
  "drawdown_pct pv = map (\<lambda>d. np_mul d (Fin 100)) (drawdown pv)"

definition in_drawdown :: "real list \<Rightarrow> bool list" where
  "in_drawdown pv = map (\<lambda>d. np_less d (Fin (- (1 / 10)))) (drawdown_pct pv)"

definition drawdown_analysis :: "equity_point list \<Rightarrow> drawdown_period list" where
  "drawdown_analysis equity_df =
     (if equity_df = [] then []
      else
        (let portfolio_values = map portfolio_value equity_df
         in drawdown_loop equity_df (drawdown_pct portfolio_values) None
              (enumerate 0 (in_drawdown portfolio_values))))"

text \<open>
  The returns column of \<open>__init__\<close>: \<open>pct_change()\<close> is \<open>v[i] / v[i-1] - 1\<close>, NaN at the
  first row.
\<close>

fun pct_change :: "real list \<Rightarrow> np_float list" where
  "pct_change [] = []"
| "pct_change (x # xs) =
     NaN # map2 (\<lambda>prev cur. np_sub (np_div (Fin cur) (Fin prev)) (Fin 1)) (x # xs) xs"

definition series_sum :: "np_float list \<Rightarrow> np_float" where
  "series_sum xs = foldl np_add (Fin 0) (dropna xs)"

definition series_mean :: "np_float list \<Rightarrow> np_float" where
  "series_mean xs = np_div (series_sum xs) (Fin (real (length (dropna xs))))"

text \<open>
  \<open>Series.std()\<close>: the sample standard deviation (\<open>ddof = 1\<close>), NaN skipped. With fewer
  than two values left the divisor \<open>count - ddof\<close> is not positive and the result is NaN.
\<close>

definition series_std :: "np_float list \<Rightarrow> np_float" where
  "series_std xs =
     (let ys = dropna xs; count = length ys in
      if count \<le> 1 then NaN
      else
        (let avg = np_div (series_sum ys) (Fin (real count));
             sqr = map (\<lambda>y. np_mul (np_sub avg y) (np_sub avg y)) ys
         in np_sqrt (np_div (series_sum sqr) (Fin (real (count - 1))))))"

definition calculate_sharpe_ratio :: "equity_point list \<Rightarrow> real \<Rightarrow> np_float" where
  "calculate_sharpe_ratio equity_df risk_free_rate =
     (if equity_df = [] \<or> length equity_df < 2 then Fin 0
      else
        (let returns = dropna (pct_change (map portfolio_value equity_df)) in
         if length returns = 0 then Fin 0
         else
           (let excess_returns = map (\<lambda>r. np_sub r (Fin (risk_free_rate / 252))) returns in
            if series_std excess_returns = Fin 0 then Fin 0
            else np_mul (np_div (series_mean excess_returns) (series_std excess_returns))
                   (Fin (sqrt 252)))))"

definition calculate_sortino_ratio :: "equity_point list \<Rightarrow> real \<Rightarrow> np_float" where
  "calculate_sortino_ratio equity_df risk_free_rate =
     (if equity_df = [] \<or> length equity_df < 2 then Fin 0
      else
        (let returns = dropna (pct_change (map portfolio_value equity_df)) in
         if length returns = 0 then Fin 0
         else
           (let excess_returns = map (\<lambda>r. np_sub r (Fin (risk_free_rate / 252))) returns;
                downside_returns = filter (\<lambda>x. np_less x (Fin 0)) excess_returns
            in if length downside_returns = 0 \<or> series_std downside_returns = Fin 0 then Fin 0
               else np_mul (np_div (series_mean excess_returns) (series_std downside_returns))
                      (Fin (sqrt 252)))))"

text \<open>An equity curve with the given portfolio values, one point a day.\<close>

definition curve_of :: "real list \<Rightarrow> equity_point list" where
  "curve_of vs =
     map (\<lambda>(i, v). \<lparr>timestamp = int i * day, portfolio_value = v, price = 1\<rparr>)
       (zip [0..<length vs] vs)"

subsection \<open>Notions used to state the properties of the analytics\<close>

text \<open>
  The drawdown series over the reals: what \<open>drawdown\<close> computes when no running peak
  is zero.
\<close>

definition drawdown_real :: "real list \<Rightarrow> real list" where
  "drawdown_real pv = map2 (\<lambda>v p. (v - p) / p) pv (expanding_max pv)"

text \<open>
  The specification's closed run of a series of flags: the indices \<open>s..e\<close> all flagged,
  the index after \<open>e\<close> inside the series and not flagged (the run transitions back
  before the series ends), and the run not extendable to the left.
\<close>

definition closed_run :: "bool list \<Rightarrow> nat \<Rightarrow> nat \<Rightarrow> bool" where
  "closed_run xs s e =
     (s \<le> e \<and> Suc e < length xs \<and> list_all (\<lambda>k. xs ! k) [s..<Suc e] \<and> \<not> xs ! Suc e \<and>
      (s = 0 \<or> \<not> xs ! (s - 1)))"

text \<open>
  The pairs of indices \<open>(start_idx, end_idx)\<close> at which the loop of \<open>drawdown_analysis\<close>
  appends a period, from index \<open>i\<close> on; and what \<open>start_idx\<close> holds when the loop
  reaches index \<open>i\<close>: nothing if the flag before \<open>i\<close> is off, else the start of the run
  of flags that reaches \<open>i\<close>.
\<close>

fun run_from :: "nat option \<Rightarrow> nat \<Rightarrow> bool list \<Rightarrow> (nat \<times> nat) list" where
  "run_from st i [] = []"
| "run_from st i (b # bs) =
     (if b \<and> st = None then run_from (Some i) (Suc i) bs
      else if \<not> b \<and> st \<noteq> None then (the st, i - 1) # run_from None (Suc i) bs
      else run_from st (Suc i) bs)"

definition open_at :: "bool list \<Rightarrow> nat \<Rightarrow> nat option \<Rightarrow> bool" where
  "open_at xs i st =
     (case st of
        None \<Rightarrow> i = 0 \<or> \<not> xs ! (i - 1)
      | Some s0 \<Rightarrow> s0 < i \<and> (\<forall>k. s0 \<le> k \<and> k < i \<longrightarrow> xs ! k) \<and> (s0 = 0 \<or> \<not> xs ! (s0 - 1)))"

section \<open>Properties of the engine\<close>

text \<open>
  C10. On a freshly constructed engine, \<open>sell\<close> with quantity \<open>0\<close> passes the guard
  \<open>quantity <= self.position\<close> and raises \<open>ZeroDivisionError\<close> at \<open>profit_pct\<close>
  instead of returning a boolean, whatever the price, the timestamp and the
  construction parameters.
\<close>

theorem sell_fresh_engine_raises:
  "0 \<le> position (BacktestEngine b c) \<and>
   fst (sell (BacktestEngine b c) p 0 ts) = Inl ZeroDivisionError"
  by (simp add: sell_def BacktestEngine_def Let_def)

lemma iterrows_4: "iterrows [a, b, c, d] = [(0, a), (1, b), (2, c), (3, d)]"
  by (simp add: iterrows_def upt_rec)

lemma scenario_run:
  "run_backtest (BacktestEngine 10000 0) scenario_bars scenario_signals =
     (Inr (),
      \<lparr>initial_balance = 10000, balance = 9050, commission = 0, position = 0,
       entry_price = 100,
       trades = [BUY 0 100 95 9500 500, SELL (2 * day) 90 95 8550 (- 950) (- 10) 9050],
       equity_curve =
         [\<lparr>timestamp = 0, portfolio_value = 10000, price = 100\<rparr>,
          \<lparr>timestamp = day, portfolio_value = 10950, price = 110\<rparr>,
          \<lparr>timestamp = 2 * day, portfolio_value = 9050, price = 90\<rparr>,
          \<lparr>timestamp = 3 * day, portfolio_value = 9050, price = 120\<rparr>]\<rparr>)"
  by (simp add: run_backtest_def scenario_bars_def scenario_signals_def iterrows_4
      process_row_def execute_signal_def buy_def sell_def get_portfolio_value_def
      BacktestEngine_def Let_def)

text \<open>
  C6. The end-to-end scenario: balance 10000, commission 0, closes 100, 110, 90, 120,
  signals Buy, Hold, Sell, Hold. The run returns; the ledger is the purchase of 95 units
  at index 0 for 9500 (balance 500) and the sale of 95 units at 90 at index 2 for 8550
  (balance 9050, profit -950); the last equity point is worth 9050; the ledger has two
  entries; the win rate is 0.
\<close>

theorem scenario_end_to_end:
  "fst (run_backtest (BacktestEngine 10000 0) scenario_bars scenario_signals) = Inr () \<and>
   trades (snd (run_backtest (BacktestEngine 10000 0) scenario_bars scenario_signals)) =
     [BUY 0 100 95 9500 500, SELL (2 * day) 90 95 8550 (- 950) (- 10) 9050] \<and>
   balance (snd (run_backtest (BacktestEngine 10000 0) scenario_bars scenario_signals)) = 9050 \<and>
   portfolio_value (last (equity_curve
     (snd (run_backtest (BacktestEngine 10000 0) scenario_bars scenario_signals)))) = 9050 \<and>
   length (trades (snd (run_backtest (BacktestEngine 10000 0) scenario_bars scenario_signals))) = 2 \<and>
   map_sum id (\<lambda>r. case r of Error msg \<Rightarrow> None | Metrics m \<Rightarrow> Some (win_rate m))
     (get_performance_metrics
        (snd (run_backtest (BacktestEngine 10000 0) scenario_bars scenario_signals))) =
     Inr (Some 0)"
  by (simp add: scenario_run get_performance_metrics_def Let_def)

subsection \<open>The loop of \<open>run_backtest\<close>\<close>

lemma iterrows_loop_append:
  "iterrows_loop s df e (xs @ ys) =
     (case iterrows_loop s df e xs of
        (Inl err, e') \<Rightarrow> (Inl err, e')
      | (Inr u, e') \<Rightarrow> iterrows_loop s df e' ys)"
  by (induction xs arbitrary: e) (auto split: prod.splits sum.splits)

lemma execute_signal_equity_curve:
  "equity_curve (snd (execute_signal e sg c ts)) = equity_curve e"
  by (simp add: execute_signal_def buy_def sell_def Let_def split: prod.splits sum.splits)

lemma process_row_Inr:
  assumes "process_row s df e ir = (Inr u, e')"
  shows "\<exists>c ts. close (snd ir) = Some c \<and> open_time (snd ir) = Some ts \<and>
           equity_curve e' = equity_curve e @
             [\<lparr>timestamp = ts, portfolio_value = balance e' + position e' * c, price = c\<rparr>]"
proof -
  from assms obtain c where c: "close (snd ir) = Some c"
    by (auto simp: process_row_def split: option.splits)
  from assms c obtain ts where ts: "open_time (snd ir) = Some ts"
    by (auto simp: process_row_def split: option.splits)
  obtain r e2 where ex: "execute_signal e (s df (fst ir)) c ts = (r, e2)"
    by (cases "execute_signal e (s df (fst ir)) c ts")
  from assms c ts ex have e': "e' = e2\<lparr>equity_curve := equity_curve e2 @
      [\<lparr>timestamp = ts, portfolio_value = get_portfolio_value e2 c, price = c\<rparr>]\<rparr>"
    by (auto simp: process_row_def split: sum.splits)
  have "equity_curve e2 = equity_curve e"
    using execute_signal_equity_curve [of e "s df (fst ir)" c ts] ex by simp
  with e' c ts show ?thesis
    by (simp add: get_portfolio_value_def)
qed

lemma iterrows_loop_equity_curve:
  "iterrows_loop s df e xs = (Inr u, e') \<Longrightarrow>
   \<exists>ps. equity_curve e' = equity_curve e @ ps \<and> length ps = length xs"
proof (induction xs arbitrary: e)
  case Nil
  then show ?case by simp
next
  case (Cons ir xs)
  from Cons.prems obtain e1 where p: "process_row s df e ir = (Inr (), e1)"
    and l: "iterrows_loop s df e1 xs = (Inr u, e')"
    by (auto split: prod.splits sum.splits)
  from process_row_Inr [OF p] obtain pt where "equity_curve e1 = equity_curve e @ [pt]"
    by blast
  moreover from Cons.IH [OF l] obtain ps where
    "equity_curve e' = equity_curve e1 @ ps" "length ps = length xs" by blast
  ultimately have "equity_curve e' = equity_curve e @ (pt # ps) \<and> length (pt # ps) = length (ir # xs)"
    by simp
  then show ?case by blast
qed

lemma iterrows_loop_prefix:
  assumes "iterrows_loop s df e (xs @ ys) = (Inr u, e')"
  shows "\<exists>e1. iterrows_loop s df e xs = (Inr (), e1) \<and> iterrows_loop s df e1 ys = (Inr u, e')"
  using assms by (auto simp: iterrows_loop_append split: prod.splits sum.splits)

lemma length_iterrows [simp]: "length (iterrows df) = length df"
  by (simp add: iterrows_def)

lemma nth_iterrows: "i < length df \<Longrightarrow> iterrows df ! i = (i, df ! i)"
  by (simp add: iterrows_def)

lemma equity_point_at:
  assumes run: "run_backtest e df s = (Inr (), e')" and i: "i < length df"
  shows "\<exists>e_i c ts. engine_after s df e (Suc i) = (Inr (), e_i) \<and>
           close (df ! i) = Some c \<and> open_time (df ! i) = Some ts \<and>
           equity_curve e' ! (length (equity_curve e) + i) =
             \<lparr>timestamp = ts, portfolio_value = balance e_i + position e_i * c, price = c\<rparr>"
proof -
  let ?rows = "iterrows df"
  have split: "?rows = (take i ?rows @ [?rows ! i]) @ drop (Suc i) ?rows"
    using i by (simp add: take_Suc_conv_app_nth [symmetric])
  have tk: "take (Suc i) ?rows = take i ?rows @ [?rows ! i]"
    using i by (simp add: take_Suc_conv_app_nth)
  from run have "iterrows_loop s df e ((take i ?rows @ [?rows ! i]) @ drop (Suc i) ?rows) = (Inr (), e')"
    using split by (simp add: run_backtest_def)
  from iterrows_loop_prefix [OF this] obtain e_i where
    ei: "iterrows_loop s df e (take i ?rows @ [?rows ! i]) = (Inr (), e_i)"
    and rest: "iterrows_loop s df e_i (drop (Suc i) ?rows) = (Inr (), e')" by blast
  from iterrows_loop_prefix [OF ei] obtain e0 where
    e0: "iterrows_loop s df e (take i ?rows) = (Inr (), e0)"
    and step: "iterrows_loop s df e0 [?rows ! i] = (Inr (), e_i)" by blast
  from step have pr: "process_row s df e0 (?rows ! i) = (Inr (), e_i)"
    by (auto split: prod.splits sum.splits)
  from process_row_Inr [OF pr] i obtain c ts where
    c: "close (df ! i) = Some c" and ts: "open_time (df ! i) = Some ts"
    and eq: "equity_curve e_i = equity_curve e0 @
       [\<lparr>timestamp = ts, portfolio_value = balance e_i + position e_i * c, price = c\<rparr>]"
    by (auto simp: nth_iterrows)
  from iterrows_loop_equity_curve [OF e0] i obtain ps0 where
    ps0: "equity_curve e0 = equity_curve e @ ps0" "length ps0 = i" by auto
  from iterrows_loop_equity_curve [OF rest] obtain ps1 where
    ps1: "equity_curve e' = equity_curve e_i @ ps1" by blast
  have "equity_curve e' ! (length (equity_curve e) + i) =
     \<lparr>timestamp = ts, portfolio_value = balance e_i + position e_i * c, price = c\<rparr>"
    using ps0 ps1 eq by (simp add: nth_append)
  moreover have "engine_after s df e (Suc i) = (Inr (), e_i)"
    using ei tk by (simp add: engine_after_def)
  ultimately show ?thesis using c ts by blast
qed

lemma engine_after_all: "engine_after s df e (length df) = run_backtest e df s"
  by (simp add: engine_after_def run_backtest_def)


text \<open>
  C1. Conservation. For every run of \<open>run_backtest\<close> that returns, over a non-empty
  series and from any engine state: the run appends one equity point per bar; the last
  point's \<open>portfolio_value\<close> is the final balance plus the final position times the last
  bar's close; and the point appended for bar \<open>i\<close> holds the balance plus the position
  times that bar's close, both read from the engine as the \<open>i\<close>-th iteration leaves it
  (after the transition).
\<close>

theorem equity_curve_conservation:
  assumes run: "run_backtest e df strategy_func = (Inr (), e')" and ne: "df \<noteq> []"
  shows "length (equity_curve e') = length (equity_curve e) + length df \<and>
    (\<exists>c. close (last df) = Some c \<and>
       portfolio_value (last (equity_curve e')) = balance e' + position e' * c) \<and>
    (\<forall>i<length df. \<exists>e_i c ts.
       engine_after strategy_func df e (Suc i) = (Inr (), e_i) \<and>
       close (df ! i) = Some c \<and> open_time (df ! i) = Some ts \<and>
       equity_curve e' ! (length (equity_curve e) + i) =
         \<lparr>timestamp = ts, portfolio_value = balance e_i + position e_i * c, price = c\<rparr>)"
proof -
  from run obtain ps where ps: "equity_curve e' = equity_curve e @ ps" "length ps = length df"
    using iterrows_loop_equity_curve [of strategy_func df e "iterrows df" "()" e']
    by (auto simp: run_backtest_def)
  then have len: "length (equity_curve e') = length (equity_curve e) + length df" by simp
  have all: "\<forall>i<length df. \<exists>e_i c ts.
       engine_after strategy_func df e (Suc i) = (Inr (), e_i) \<and>
       close (df ! i) = Some c \<and> open_time (df ! i) = Some ts \<and>
       equity_curve e' ! (length (equity_curve e) + i) =
         \<lparr>timestamp = ts, portfolio_value = balance e_i + position e_i * c, price = c\<rparr>"
    using equity_point_at [OF run] by blast
  let ?n = "length df - 1"
  from ne have n: "?n < length df" "Suc ?n = length df" by (cases df; simp)+
  from all n(1) obtain e_n c ts where
    en: "engine_after strategy_func df e (Suc ?n) = (Inr (), e_n)"
    and c: "close (df ! ?n) = Some c"
    and pt: "equity_curve e' ! (length (equity_curve e) + ?n) =
         \<lparr>timestamp = ts, portfolio_value = balance e_n + position e_n * c, price = c\<rparr>"
    by blast
  from en n(2) run have "e_n = e'" by (simp add: engine_after_all)
  moreover have "last (equity_curve e') = equity_curve e' ! (length (equity_curve e) + ?n)"
  proof -
    have "equity_curve e' \<noteq> []" using len ne by auto
    moreover have "length (equity_curve e') - 1 = length (equity_curve e) + ?n"
      using len n by simp
    ultimately show ?thesis by (simp add: last_conv_nth)
  qed
  moreover have "last df = df ! ?n" using ne by (simp add: last_conv_nth)
  ultimately have "close (last df) = Some c \<and>
       portfolio_value (last (equity_curve e')) = balance e' + position e' * c"
    using c pt by simp
  with len all show ?thesis by blast
qed

theorem equity_curve_conservation_witness:
  "scenario_bars \<noteq> [] \<and>
   fst (run_backtest (BacktestEngine 10000 0) scenario_bars scenario_signals) = Inr () \<and>
   length (equity_curve
     (snd (run_backtest (BacktestEngine 10000 0) scenario_bars scenario_signals))) = 4 \<and>
   (\<exists>c. close (last scenario_bars) = Some c \<and>
      portfolio_value (last (equity_curve
        (snd (run_backtest (BacktestEngine 10000 0) scenario_bars scenario_signals)))) =
      balance (snd (run_backtest (BacktestEngine 10000 0) scenario_bars scenario_signals)) +
      position (snd (run_backtest (BacktestEngine 10000 0) scenario_bars scenario_signals)) * c)"
proof -
  have ne: "scenario_bars \<noteq> []" by (simp add: scenario_bars_def)
  have len: "length scenario_bars = 4" by (simp add: scenario_bars_def)
  from equity_curve_conservation [OF scenario_run ne] ne len show ?thesis
    by (simp add: scenario_run)
qed

subsection \<open>No short position, no negative balance\<close>







lemma set_take_iterrows: "ir \<in> set (take k (iterrows df)) \<Longrightarrow> snd ir \<in> set df"
proof -
  assume "ir \<in> set (take k (iterrows df))"
  then have "ir \<in> set (zip [0..<length df] df)"
    by (auto simp: iterrows_def dest: in_set_takeD)
  then have "(fst ir, snd ir) \<in> set (zip [0..<length df] df)" by simp
  then show ?thesis by (rule set_zip_rightD)
qed




subsection \<open>Commission monotonicity\<close>














subsection \<open>What the engine checks of its input\<close>

lemma execute_signal_entry_known:
  assumes "entry_known e" and "p \<noteq> 0"
  shows "\<exists>e'. execute_signal e sg p ts = (Inr (), e') \<and> entry_known e' \<and>
           equity_curve e' = equity_curve e"
  using assms
  by (auto simp: execute_signal_def entry_known_def buy_def sell_def Let_def)

lemma process_row_entry_known:
  assumes inv: "entry_known e" and r: "tradable (snd ir)"
  shows "\<exists>e'. process_row s df e ir = (Inr (), e') \<and> entry_known e' \<and>
           length (equity_curve e') = Suc (length (equity_curve e))"
proof -
  from r obtain c ts where c: "close (snd ir) = Some c" "c \<noteq> 0" and ts: "open_time (snd ir) = Some ts"
    by (auto simp: tradable_def split: option.splits)
  from execute_signal_entry_known [OF inv c(2)] obtain e1 where
    "execute_signal e (s df (fst ir)) c ts = (Inr (), e1)" "entry_known e1"
    "equity_curve e1 = equity_curve e" by blast
  with c ts show ?thesis
    by (simp add: process_row_def entry_known_def)
qed

lemma iterrows_loop_entry_known:
  assumes "entry_known e" and "\<forall>ir\<in>set xs. tradable (snd ir)"
  shows "\<exists>e'. iterrows_loop s df e xs = (Inr (), e') \<and>
           length (equity_curve e') = length (equity_curve e) + length xs"
  using assms
proof (induction xs arbitrary: e)
  case Nil
  then show ?case by simp
next
  case (Cons ir xs)
  from process_row_entry_known [of e ir s df] Cons.prems obtain e1 where
    e1: "process_row s df e ir = (Inr (), e1)" "entry_known e1"
        "length (equity_curve e1) = Suc (length (equity_curve e))" by auto
  from Cons.IH [OF e1(2)] Cons.prems(2) obtain e' where
    "iterrows_loop s df e1 xs = (Inr (), e')"
    "length (equity_curve e') = length (equity_curve e1) + length xs" by auto
  with e1 show ?case by simp
qed

lemma iterrows_Cons: "iterrows (r # rs) = (0, r) # zip [Suc 0..<Suc (length rs)] rs"
  by (simp add: iterrows_def upt_conv_Cons del: upt_Suc)


text \<open>
  C3 as stated fails: the engine validates nothing. \<open>BacktestEngine(-5, 2)\<close> is
  constructed like any other engine; \<open>run_backtest\<close> over the empty series returns
  normally; and a series whose timestamps decrease (7, then 3) is simulated to the end,
  with a trade and two equity points.
\<close>

theorem validation_counterexample:
  "BacktestEngine (- 5) 2 =
     \<lparr>initial_balance = - 5, balance = - 5, commission = 2, position = 0, entry_price = 0,
      trades = [], equity_curve = []\<rparr> \<and>
   run_backtest (BacktestEngine (- 5) 2) [] (\<lambda>df i. 1) = (Inr (), BacktestEngine (- 5) 2) \<and>
   run_backtest (BacktestEngine 10000 0)
     [\<lparr>open_time = Some 7, close = Some 100\<rparr>, \<lparr>open_time = Some 3, close = Some 110\<rparr>]
     (\<lambda>df i. 1) =
     (Inr (),
      \<lparr>initial_balance = 10000, balance = 500, commission = 0, position = 95,
       entry_price = 100, trades = [BUY 7 100 95 9500 500],
       equity_curve = [\<lparr>timestamp = 7, portfolio_value = 10000, price = 100\<rparr>,
                       \<lparr>timestamp = 3, portfolio_value = 10950, price = 110\<rparr>]\<rparr>)"
  by (simp add: run_backtest_def iterrows_def upt_rec process_row_def execute_signal_def
      buy_def get_portfolio_value_def BacktestEngine_def Let_def)


text \<open>
  C3, amended. Neither the constructor nor \<open>run_backtest\<close> checks its input.
  Over the empty series \<open>run_backtest\<close> returns normally and leaves the engine as it was.
  For every initial balance and commission (also a non-positive balance, also a
  commission outside [0,1)) and for timestamps in any order, a series whose bars all
  carry \<open>open_time\<close> and a non-zero \<open>close\<close> is simulated to the end from the fresh
  engine, with one equity point per bar. Of the malformed inputs, only a missing
  \<open>close\<close> or \<open>open_time\<close> makes \<open>run_backtest\<close> fail: on the first bar of a non-empty
  series it raises \<open>KeyError\<close>, and then balance, position, ledger and equity curve are
  as they were before the call.
\<close>

theorem no_input_validation:
  "run_backtest e [] strategy_func = (Inr (), e) \<and>
   (list_all tradable df \<longrightarrow>
      (\<exists>e'. run_backtest (BacktestEngine b c) df strategy_func = (Inr (), e') \<and>
         length (equity_curve e') = length df)) \<and>
   (df \<noteq> [] \<and> (close (hd df) = None \<or> open_time (hd df) = None) \<longrightarrow>
      run_backtest e df strategy_func = (Inl KeyError, e))"
proof (intro conjI impI)
  show "run_backtest e [] strategy_func = (Inr (), e)"
    by (simp add: run_backtest_def iterrows_def)
next
  assume wf: "list_all tradable df"
  have "entry_known (BacktestEngine b c)"
    by (simp add: entry_known_def BacktestEngine_def)
  moreover have "\<forall>ir\<in>set (iterrows df). tradable (snd ir)"
    using wf set_take_iterrows [of _ "length df" df] by (auto simp: list_all_iff)
  ultimately obtain e' where
    "iterrows_loop strategy_func df (BacktestEngine b c) (iterrows df) = (Inr (), e')"
    "length (equity_curve e') = length (equity_curve (BacktestEngine b c)) + length (iterrows df)"
    using iterrows_loop_entry_known by blast
  then show "\<exists>e'. run_backtest (BacktestEngine b c) df strategy_func = (Inr (), e') \<and>
         length (equity_curve e') = length df"
    by (simp add: run_backtest_def BacktestEngine_def)
next
  assume a: "df \<noteq> [] \<and> (close (hd df) = None \<or> open_time (hd df) = None)"
  then obtain r rs where df: "df = r # rs" by (cases df) auto
  with a have "close r = None \<or> open_time r = None" by simp
  then have "process_row strategy_func df e (0, r) = (Inl KeyError, e)"
    by (auto simp: process_row_def split: option.splits)
  then show "run_backtest e df strategy_func = (Inl KeyError, e)"
    unfolding run_backtest_def df iterrows_Cons by (simp add: df)
qed


theorem no_input_validation_witness:
  "list_all tradable [\<lparr>open_time = Some 7, close = Some 100\<rparr>, \<lparr>open_time = Some 3, close = Some 110\<rparr>] \<and>
   (\<exists>e'. run_backtest (BacktestEngine (- 5) 2)
        [\<lparr>open_time = Some 7, close = Some 100\<rparr>, \<lparr>open_time = Some 3, close = Some 110\<rparr>]
        scenario_signals = (Inr (), e') \<and> length (equity_curve e') = 2) \<and>
   [\<lparr>open_time = Some 7, close = None\<rparr>] \<noteq> [] \<and>
   close (hd [\<lparr>open_time = Some 7, close = None\<rparr>]) = None \<and>
   run_backtest (BacktestEngine 10000 0) [\<lparr>open_time = Some 7, close = None\<rparr>] scenario_signals =
     (Inl KeyError, BacktestEngine 10000 0)"
proof -
  let ?df = "[\<lparr>open_time = Some 7, close = Some 100\<rparr>, \<lparr>open_time = Some 3, close = Some 110\<rparr>]"
  have wf: "list_all tradable ?df" by (simp add: tradable_def)
  have len: "length ?df = 2" by simp
  from no_input_validation [of "BacktestEngine 10000 0" scenario_signals ?df "- 5" 2] wf
  have "\<exists>e'. run_backtest (BacktestEngine (- 5) 2) ?df scenario_signals = (Inr (), e') \<and>
          length (equity_curve e') = length ?df" by blast
  then have run: "\<exists>e'. run_backtest (BacktestEngine (- 5) 2) ?df scenario_signals = (Inr (), e') \<and>
          length (equity_curve e') = 2" by (simp only: len)
  from no_input_validation [of "BacktestEngine 10000 0" scenario_signals
      "[\<lparr>open_time = Some 7, close = None\<rparr>]" 0 0]
  have "run_backtest (BacktestEngine 10000 0) [\<lparr>open_time = Some 7, close = None\<rparr>] scenario_signals =
     (Inl KeyError, BacktestEngine 10000 0)" by simp
  with wf run show ?thesis by simp
qed

section \<open>Properties of the analytics\<close>

subsection \<open>The running peak and the drawdown series\<close>

lemma length_running_max [simp]: "length (running_max m xs) = length xs"
  by (induction xs arbitrary: m) simp_all

lemma length_expanding_max [simp]: "length (expanding_max xs) = length xs"
  by (cases xs) simp_all

lemma running_max_0: "xs \<noteq> [] \<Longrightarrow> running_max m xs ! 0 = max m (xs ! 0)"
  by (cases xs) simp_all

lemma running_max_Suc:
  "Suc i < length xs \<Longrightarrow> running_max m xs ! Suc i = max (running_max m xs ! i) (xs ! Suc i)"
proof (induction xs arbitrary: m i)
  case Nil
  then show ?case by simp
next
  case (Cons x xs)
  show ?case
  proof (cases i)
    case 0
    with Cons.prems show ?thesis by (simp add: running_max_0)
  next
    case (Suc k)
    with Cons.prems Cons.IH [of k "max m x"] show ?thesis by simp
  qed
qed

lemma expanding_max_0: "xs \<noteq> [] \<Longrightarrow> expanding_max xs ! 0 = xs ! 0"
  by (cases xs) simp_all

lemma expanding_max_Suc:
  assumes "Suc i < length xs"
  shows "expanding_max xs ! Suc i = max (expanding_max xs ! i) (xs ! Suc i)"
proof (cases xs)
  case Nil
  with assms show ?thesis by simp
next
  case (Cons x ys)
  show ?thesis
  proof (cases i)
    case 0
    with Cons assms show ?thesis by (simp add: running_max_0)
  next
    case (Suc k)
    with Cons assms running_max_Suc [of k ys x] show ?thesis by simp
  qed
qed

lemma expanding_max_ge: "i < length xs \<Longrightarrow> xs ! i \<le> expanding_max xs ! i"
  by (cases i) (simp_all add: expanding_max_0 expanding_max_Suc)

lemma expanding_max_mono_step:
  "Suc i < length xs \<Longrightarrow> expanding_max xs ! i \<le> expanding_max xs ! Suc i"
  by (simp add: expanding_max_Suc)

lemma expanding_max_mono:
  assumes "j < length xs" and "i \<le> j"
  shows "expanding_max xs ! i \<le> expanding_max xs ! j"
  using assms
proof (induction j)
  case 0
  then show ?case by simp
next
  case (Suc j)
  show ?case
  proof (cases "i = Suc j")
    case True
    then show ?thesis by simp
  next
    case False
    with Suc.prems have "i \<le> j" "j < length xs" by simp_all
    with Suc.IH have "expanding_max xs ! i \<le> expanding_max xs ! j" by simp
    also have "\<dots> \<le> expanding_max xs ! Suc j"
      using Suc.prems(1) by (rule expanding_max_mono_step)
    finally show ?thesis .
  qed
qed

lemma expanding_max_pos:
  assumes "\<forall>v\<in>set xs. 0 < v" and "i < length xs"
  shows "0 < expanding_max xs ! i"
proof -
  have "0 < xs ! i" using assms by simp
  also have "\<dots> \<le> expanding_max xs ! i" using assms(2) by (rule expanding_max_ge)
  finally show ?thesis .
qed

lemma drawdown_finite:
  assumes "\<forall>v\<in>set pv. 0 < v"
  shows "drawdown pv = map Fin (drawdown_real pv)"
proof (rule nth_equalityI)
  show "length (drawdown pv) = length (map Fin (drawdown_real pv))"
    by (simp add: drawdown_def drawdown_real_def)
next
  fix i assume "i < length (drawdown pv)"
  then have i: "i < length pv" by (simp add: drawdown_def)
  then have "expanding_max pv ! i \<noteq> 0" using expanding_max_pos [OF assms i] by simp
  with i show "drawdown pv ! i = map Fin (drawdown_real pv) ! i"
    by (simp add: drawdown_def drawdown_real_def)
qed

lemma length_drawdown_real [simp]: "length (drawdown_real pv) = length pv"
  by (simp add: drawdown_real_def)

lemma drawdown_real_nth:
  "i < length pv \<Longrightarrow>
   drawdown_real pv ! i = (pv ! i - expanding_max pv ! i) / expanding_max pv ! i"
  by (simp add: drawdown_real_def)

lemma dropna_Fin [simp]: "dropna (map Fin xs) = map Fin xs"
  by (induction xs) (simp_all add: dropna_def)

lemma fold_np_min_Fin: "fold np_min (map Fin ys) (Fin y) = Fin (fold min ys y)"
proof (induction ys arbitrary: y)
  case Nil
  then show ?case by simp
next
  case (Cons z zs)
  have "np_min (Fin z) (Fin y) = Fin (min z y)" by (simp add: np_min_def min_def)
  with Cons.IH [of "min z y"] show ?case by simp
qed

lemma series_min_Fin:
  assumes "xs \<noteq> []"
  shows "series_min (map Fin xs) = Fin (Min (set xs))"
proof -
  from assms obtain y ys where xs: "xs = y # ys" by (cases xs) auto
  have "series_min (map Fin xs) = fold np_min (map Fin ys) (Fin y)"
    unfolding series_min_def dropna_Fin by (simp add: xs)
  also have "\<dots> = Fin (fold min ys y)" by (rule fold_np_min_Fin)
  also have "fold min ys y = Min (set xs)" unfolding xs by (rule Min.set_eq_fold [symmetric])
  finally show ?thesis .
qed

lemma first_index_Fin [simp]: "first_index (Fin m) (map Fin xs) = first_index m xs"
  by (induction xs) simp_all

lemma idxmin_Fin: "xs \<noteq> [] \<Longrightarrow> idxmin (map Fin xs) = Inr (first_index (Min (set xs)) xs)"
  by (simp add: idxmin_def series_min_Fin)

lemma first_index_less: "v \<in> set xs \<Longrightarrow> first_index v xs < length xs"
  by (induction xs) auto

lemma first_index_nth: "v \<in> set xs \<Longrightarrow> xs ! first_index v xs = v"
  by (induction xs) auto

lemma first_index_before: "j < first_index v xs \<Longrightarrow> j < length xs \<Longrightarrow> xs ! j \<noteq> v"
proof (induction xs arbitrary: j)
  case Nil
  then show ?case by simp
next
  case (Cons x xs)
  then show ?case by (cases j) (auto split: if_splits)
qed

lemma curve_of_2: "curve_of [a, b] =
  [\<lparr>timestamp = 0, portfolio_value = a, price = 1\<rparr>,
   \<lparr>timestamp = day, portfolio_value = b, price = 1\<rparr>]"
  by (simp add: curve_of_def upt_rec)

lemma curve_of_3: "curve_of [a, b, c] =
  [\<lparr>timestamp = 0, portfolio_value = a, price = 1\<rparr>,
   \<lparr>timestamp = day, portfolio_value = b, price = 1\<rparr>,
   \<lparr>timestamp = 2 * day, portfolio_value = c, price = 1\<rparr>]"
  by (simp add: curve_of_def upt_rec)

lemma curve_of_4: "curve_of [a, b, c, d] =
  [\<lparr>timestamp = 0, portfolio_value = a, price = 1\<rparr>,
   \<lparr>timestamp = day, portfolio_value = b, price = 1\<rparr>,
   \<lparr>timestamp = 2 * day, portfolio_value = c, price = 1\<rparr>,
   \<lparr>timestamp = 3 * day, portfolio_value = d, price = 1\<rparr>]"
  by (simp add: curve_of_def upt_rec)

lemma curve_of_5: "curve_of [a, b, c, d, e] =
  [\<lparr>timestamp = 0, portfolio_value = a, price = 1\<rparr>,
   \<lparr>timestamp = day, portfolio_value = b, price = 1\<rparr>,
   \<lparr>timestamp = 2 * day, portfolio_value = c, price = 1\<rparr>,
   \<lparr>timestamp = 3 * day, portfolio_value = d, price = 1\<rparr>,
   \<lparr>timestamp = 4 * day, portfolio_value = e, price = 1\<rparr>]"
  by (simp add: curve_of_def upt_rec)

lemmas max_drawdown_eval =
  calculate_max_drawdown_def drawdown_def series_min_def dropna_def np_min_def idxmin_def
  idxmax_def Let_def

subsection \<open>Maximum drawdown\<close>

text \<open>
  C9. \<open>calculate_max_drawdown\<close> is to return the minimum of
  \<open>(value - running_max) / running_max\<close>. On the curve 100, 110, which never falls below
  its running peak, that minimum is 0 and is first reached at index 0; the slice
  \<open>peak[:0]\<close> is empty and \<open>idxmax\<close> raises \<open>ValueError\<close>: the function raises instead
  of returning the maximum drawdown 0.
\<close>

theorem max_drawdown_raises_on_rising_curve:
  "calculate_max_drawdown (curve_of [100, 110]) = Inl ValueError \<and>
   series_min (drawdown [100, 110]) = Fin 0 \<and>
   idxmin (drawdown [100, 110]) = Inr 0 \<and>
   idxmax (take 0 (expanding_max [100, 110])) = Inl ValueError"
  by (simp add: curve_of_2 max_drawdown_eval)

text \<open>
  The same holds of every non-empty curve of positive values that never falls below its
  running peak (a run without a trade is one). The two instances of the claim hold: the
  curve 100, 90, 80, 95 gives -20% from index 0 to index 2, the empty curve gives
  \<open>(0, 0, None, None)\<close>.
\<close>

lemma max_drawdown_raises_without_decline:
  assumes pos: "list_all (\<lambda>p. 0 < portfolio_value p) equity_df" and ne: "equity_df \<noteq> []"
    and flat: "\<forall>i<length equity_df.
        portfolio_value (equity_df ! i) = expanding_max (map portfolio_value equity_df) ! i"
  shows "calculate_max_drawdown equity_df = Inl ValueError"
proof -
  define pv where "pv = map portfolio_value equity_df"
  define dr where "dr = drawdown_real pv"
  have pos': "\<forall>v\<in>set pv. 0 < v" using pos by (simp add: pv_def list_all_iff)
  have dd: "drawdown pv = map Fin dr" unfolding dr_def by (rule drawdown_finite [OF pos'])
  have len: "length dr = length equity_df" by (simp add: dr_def pv_def)
  have zero: "\<And>j. j < length equity_df \<Longrightarrow> dr ! j = 0"
    using flat by (simp add: dr_def drawdown_real_nth pv_def)
  have dne: "dr \<noteq> []" using ne len by auto
  have "set dr = {0}"
  proof -
    have "set dr \<subseteq> {0}" using zero len by (auto simp: in_set_conv_nth)
    moreover have "dr ! 0 \<in> set dr" using dne by simp
    then have "0 \<in> set dr" using zero [of 0] ne by simp
    ultimately show ?thesis by auto
  qed
  then have m: "Min (set dr) = 0" by simp
  have "dr ! 0 = 0" using zero ne by simp
  then have "first_index 0 dr = 0" using dne by (cases dr) simp_all
  with m have "idxmin (drawdown pv) = Inr 0" by (simp add: dd idxmin_Fin [OF dne])
  then show ?thesis
    using ne by (simp add: calculate_max_drawdown_def Let_def pv_def [symmetric] idxmax_def)
qed

lemma max_drawdown_example:
  "calculate_max_drawdown (curve_of [100, 90, 80, 95]) =
     Inr (Fin (- (1 / 5)), Fin (- 20),
          Some (timestamp (curve_of [100, 90, 80, 95] ! 0)),
          Some (timestamp (curve_of [100, 90, 80, 95] ! 2))) \<and>
   idxmin (drawdown [100, 90, 80, 95]) = Inr 2 \<and>
   idxmax (take 2 (expanding_max [100, 90, 80, 95])) = Inr 0"
  by (simp add: curve_of_4 max_drawdown_eval)

lemma max_drawdown_empty: "calculate_max_drawdown [] = Inr (Fin 0, Fin 0, None, None)"
  by (simp add: calculate_max_drawdown_def)

text \<open>
  C4 as stated fails. On the curve 100, 100, 90 the trough is index 2 and the running
  peak is 100 at the indices 0, 1 and 2. The latest index at or before the trough with
  that peak is 2 (1 if the trough is left out); the function returns the timestamp of
  index 0, the earliest.
\<close>

theorem peak_tie_break_counterexample:
  "calculate_max_drawdown (curve_of [100, 100, 90]) =
     Inr (Fin (- (1 / 10)), Fin (- 10),
          Some (timestamp (curve_of [100, 100, 90] ! 0)),
          Some (timestamp (curve_of [100, 100, 90] ! 2))) \<and>
   idxmin (drawdown [100, 100, 90]) = Inr 2 \<and>
   idxmax (take 2 (expanding_max [100, 100, 90])) = Inr 0 \<and>
   expanding_max [100, 100, 90] ! 1 = expanding_max [100, 100, 90] ! 0 \<and>
   expanding_max [100, 100, 90] ! 2 = expanding_max [100, 100, 90] ! 0 \<and>
   timestamp (curve_of [100, 100, 90] ! 1) \<noteq> timestamp (curve_of [100, 100, 90] ! 0) \<and>
   timestamp (curve_of [100, 100, 90] ! 2) \<noteq> timestamp (curve_of [100, 100, 90] ! 0)"
  by (simp add: curve_of_3 max_drawdown_eval day_def)

text \<open>
  C4, amended. For every equity curve of positive values with a point below its
  running peak: \<open>calculate_max_drawdown\<close> returns; the minimum drawdown \<open>m\<close> is finite;
  the returned end is the timestamp of the trough index \<open>t\<close>, the first index where the
  drawdown is \<open>m\<close>; the returned start is the timestamp of the index \<open>s\<close> before \<open>t\<close>
  whose running peak is the largest at or before the trough, and among the indices
  with that peak \<open>s\<close> is the earliest (every index before \<open>s\<close> has a smaller peak).
\<close>

theorem max_drawdown_period:
  assumes pos: "list_all (\<lambda>p. 0 < portfolio_value p) equity_df"
    and decline: "\<exists>i<length equity_df.
        portfolio_value (equity_df ! i) < expanding_max (map portfolio_value equity_df) ! i"
  shows "\<exists>t s m.
     calculate_max_drawdown equity_df =
       Inr (Fin m, Fin (m * 100), Some (timestamp (equity_df ! s)), Some (timestamp (equity_df ! t))) \<and>
     idxmin (drawdown (map portfolio_value equity_df)) = Inr t \<and>
     idxmax (take t (expanding_max (map portfolio_value equity_df))) = Inr s \<and>
     t < length equity_df \<and> s < t \<and>
     drawdown (map portfolio_value equity_df) ! t = Fin m \<and>
     (\<forall>j<length equity_df. \<exists>d. drawdown (map portfolio_value equity_df) ! j = Fin d \<and> m \<le> d) \<and>
     (\<forall>j<t. \<exists>d. drawdown (map portfolio_value equity_df) ! j = Fin d \<and> m < d) \<and>
     (\<forall>j\<le>t. expanding_max (map portfolio_value equity_df) ! j \<le>
              expanding_max (map portfolio_value equity_df) ! s) \<and>
     (\<forall>j<s. expanding_max (map portfolio_value equity_df) ! j <
              expanding_max (map portfolio_value equity_df) ! s)"
proof -
  define pv where "pv = map portfolio_value equity_df"
  define peak where "peak = expanding_max pv"
  define dr where "dr = drawdown_real pv"
  define m where "m = Min (set dr)"
  define t where "t = first_index m dr"
  define tk where "tk = take t peak"
  define s where "s = first_index (Max (set tk)) tk"
  have n: "length pv = length equity_df" "length dr = length equity_df"
    "length peak = length equity_df"
    by (simp_all add: pv_def dr_def peak_def)
  have pos': "\<forall>v\<in>set pv. 0 < v" using pos by (simp add: pv_def list_all_iff)
  have dd: "drawdown pv = map Fin dr" unfolding dr_def by (rule drawdown_finite [OF pos'])
  from decline obtain i where i: "i < length equity_df" "pv ! i < peak ! i"
    by (auto simp: pv_def peak_def)
  then have ne: "equity_df \<noteq> []" "dr \<noteq> []" "pv \<noteq> []" using n by auto
  have peak_pos: "\<And>j. j < length equity_df \<Longrightarrow> 0 < peak ! j"
    unfolding peak_def using expanding_max_pos [OF pos'] n by simp
  have dr_nth: "\<And>j. j < length equity_df \<Longrightarrow> dr ! j = (pv ! j - peak ! j) / peak ! j"
    unfolding dr_def peak_def using drawdown_real_nth n by simp
  \<comment> \<open>the trough\<close>
  have m_in: "m \<in> set dr" unfolding m_def using ne by (intro Min_in) simp_all
  have t_lt: "t < length equity_df" unfolding t_def using first_index_less [OF m_in] n by simp
  have dr_t: "dr ! t = m" unfolding t_def by (rule first_index_nth [OF m_in])
  have m_le: "\<And>j. j < length equity_df \<Longrightarrow> m \<le> dr ! j"
    unfolding m_def using n by (intro Min_le) simp_all
  have m_lt: "\<And>j. j < t \<Longrightarrow> m < dr ! j"
  proof -
    fix j assume j: "j < t"
    then have jl: "j < length equity_df" using t_lt by simp
    have "dr ! j \<noteq> m" using first_index_before [of j m dr] j jl n by (simp add: t_def)
    with m_le [OF jl] show "m < dr ! j" by simp
  qed
  have "dr ! i < 0" using i peak_pos [OF i(1)] by (simp add: dr_nth divide_neg_pos)
  with m_le [OF i(1)] have m_neg: "m < 0" by simp
  have dr0: "dr ! 0 = 0" using ne by (simp add: dr_nth peak_def expanding_max_0)
  have t0: "t \<noteq> 0"
  proof
    assume "t = 0"
    with dr_t dr0 have "m = 0" by simp
    with m_neg show False by simp
  qed
  then obtain k where k: "t = Suc k" by (cases t) auto
  \<comment> \<open>the peak before the trough\<close>
  have len_tk: "length tk = t" unfolding tk_def using t_lt n by simp
  then have tk_ne: "tk \<noteq> []" using t0 by auto
  have M_in: "Max (set tk) \<in> set tk" using tk_ne by (intro Max_in) simp_all
  have s_lt: "s < t" unfolding s_def using first_index_less [OF M_in] len_tk by simp
  have tk_nth: "\<And>j. j < t \<Longrightarrow> tk ! j = peak ! j" unfolding tk_def by simp
  have peak_s: "peak ! s = Max (set tk)"
    using first_index_nth [OF M_in] tk_nth [OF s_lt] by (simp add: s_def)
  have before: "\<And>j. j < t \<Longrightarrow> peak ! j \<le> peak ! s"
  proof -
    fix j assume j: "j < t"
    then have "tk ! j \<in> set tk" using len_tk by simp
    then have "tk ! j \<le> Max (set tk)" by (intro Max_ge) simp_all
    then show "peak ! j \<le> peak ! s" using tk_nth [OF j] peak_s by simp
  qed
  have earliest: "\<And>j. j < s \<Longrightarrow> peak ! j < peak ! s"
  proof -
    fix j assume j: "j < s"
    then have jt: "j < t" using s_lt by simp
    have "tk ! j \<noteq> Max (set tk)"
      using first_index_before [of j "Max (set tk)" tk] j jt len_tk by (simp add: s_def)
    with before [OF jt] tk_nth [OF jt] peak_s show "peak ! j < peak ! s" by simp
  qed
  have "(pv ! t - peak ! t) / peak ! t < 0" using dr_t m_neg dr_nth [OF t_lt] by simp
  then have below: "pv ! t < peak ! t"
    using peak_pos [OF t_lt] by (simp add: divide_less_0_iff)
  have "peak ! t = max (peak ! k) (pv ! t)"
    unfolding peak_def k using t_lt n k by (intro expanding_max_Suc) simp
  with below have "peak ! t = peak ! k" by (simp add: max_def split: if_splits)
  moreover have "peak ! k \<le> peak ! s" using before [of k] k by simp
  ultimately have at_t: "peak ! t \<le> peak ! s" by simp
  have upto: "\<forall>j\<le>t. peak ! j \<le> peak ! s"
  proof (intro allI impI)
    fix j assume "j \<le> t"
    then consider "j < t" | "j = t" by linarith
    then show "peak ! j \<le> peak ! s" using before at_t by cases simp_all
  qed
  \<comment> \<open>what the function returns\<close>
  have imin: "idxmin (drawdown pv) = Inr t"
    unfolding dd t_def m_def by (rule idxmin_Fin [OF ne(2)])
  have smin: "series_min (drawdown pv) = Fin m"
    unfolding dd m_def by (rule series_min_Fin [OF ne(2)])
  have imax: "idxmax (take t peak) = Inr s"
    using tk_ne by (simp add: idxmax_def s_def tk_def)
  have s_len: "s < length equity_df" using s_lt t_lt by simp
  have res: "calculate_max_drawdown equity_df =
       Inr (Fin m, Fin (m * 100), Some (timestamp (equity_df ! s)), Some (timestamp (equity_df ! t)))"
    using ne(1) imin smin imax s_len t_lt
    by (simp add: calculate_max_drawdown_def Let_def pv_def [symmetric] peak_def [symmetric])
  have all_fin: "\<forall>j<length equity_df. \<exists>d. drawdown pv ! j = Fin d \<and> m \<le> d"
    using m_le n by (simp add: dd)
  have before_fin: "\<forall>j<t. \<exists>d. drawdown pv ! j = Fin d \<and> m < d"
    using m_lt t_lt n by (simp add: dd)
  have at_fin: "drawdown pv ! t = Fin m" using dr_t t_lt n by (simp add: dd)
  have "calculate_max_drawdown equity_df =
       Inr (Fin m, Fin (m * 100), Some (timestamp (equity_df ! s)), Some (timestamp (equity_df ! t))) \<and>
     idxmin (drawdown pv) = Inr t \<and> idxmax (take t peak) = Inr s \<and>
     t < length equity_df \<and> s < t \<and> drawdown pv ! t = Fin m \<and>
     (\<forall>j<length equity_df. \<exists>d. drawdown pv ! j = Fin d \<and> m \<le> d) \<and>
     (\<forall>j<t. \<exists>d. drawdown pv ! j = Fin d \<and> m < d) \<and>
     (\<forall>j\<le>t. peak ! j \<le> peak ! s) \<and> (\<forall>j<s. peak ! j < peak ! s)"
    using res imin imax t_lt s_lt at_fin all_fin before_fin upto earliest by blast
  then show ?thesis unfolding pv_def peak_def by blast
qed

theorem max_drawdown_period_witness:
  "list_all (\<lambda>p. 0 < portfolio_value p) (curve_of [100, 90, 80, 95]) \<and>
   1 < length (curve_of [100, 90, 80, 95]) \<and>
   portfolio_value (curve_of [100, 90, 80, 95] ! 1) <
     expanding_max (map portfolio_value (curve_of [100, 90, 80, 95])) ! 1 \<and>
   (\<exists>t s m. calculate_max_drawdown (curve_of [100, 90, 80, 95]) =
        Inr (Fin m, Fin (m * 100), Some (timestamp (curve_of [100, 90, 80, 95] ! s)),
             Some (timestamp (curve_of [100, 90, 80, 95] ! t))) \<and>
      s < t \<and> t < length (curve_of [100, 90, 80, 95]))"
proof -
  have pos: "list_all (\<lambda>p. 0 < portfolio_value p) (curve_of [100, 90, 80, 95])"
    by (simp add: curve_of_4)
  have d: "1 < length (curve_of [100, 90, 80, 95]) \<and>
     portfolio_value (curve_of [100, 90, 80, 95] ! 1) <
     expanding_max (map portfolio_value (curve_of [100, 90, 80, 95])) ! 1"
    by (simp add: curve_of_4)
  then have decline: "\<exists>i<length (curve_of [100, 90, 80, 95]).
     portfolio_value (curve_of [100, 90, 80, 95] ! i) <
     expanding_max (map portfolio_value (curve_of [100, 90, 80, 95])) ! i" by blast
  from max_drawdown_period [OF pos decline]
  have "\<exists>t s m. calculate_max_drawdown (curve_of [100, 90, 80, 95]) =
        Inr (Fin m, Fin (m * 100), Some (timestamp (curve_of [100, 90, 80, 95] ! s)),
             Some (timestamp (curve_of [100, 90, 80, 95] ! t))) \<and>
      s < t \<and> t < length (curve_of [100, 90, 80, 95])" by blast
  with pos d show ?thesis by blast
qed

subsection \<open>Drawdown episodes\<close>

lemma drawdown_loop_run_from:
  "drawdown_loop eq dd st (enumerate i bs) =
     map (\<lambda>(s, e). close_period eq dd s e) (run_from st i bs)"
  by (induction bs arbitrary: st i) simp_all

lemma closed_run_all: "closed_run xs s e \<Longrightarrow> s \<le> k \<Longrightarrow> k \<le> e \<Longrightarrow> xs ! k"
  by (simp add: closed_run_def list_all_iff del: upt_Suc)

lemma closed_run_start_unique:
  assumes c: "closed_run xs s e" and o: "open_at xs i (Some s0)" and e: "Suc e = i"
  shows "s = s0"
proof (rule ccontr)
  assume "s \<noteq> s0"
  then consider "s < s0" | "s0 < s" by linarith
  then show False
  proof cases
    case 1
    with o have "s0 \<noteq> 0" "s0 - 1 \<le> e" "s \<le> s0 - 1" using e by (auto simp: open_at_def)
    with c have "xs ! (s0 - 1)" using closed_run_all by blast
    with o \<open>s0 \<noteq> 0\<close> show False by (simp add: open_at_def)
  next
    case 2
    with c e have "s \<noteq> 0" "s0 \<le> s - 1" "s - 1 < i" by (auto simp: closed_run_def)
    with o have "xs ! (s - 1)" by (simp add: open_at_def)
    with c \<open>s \<noteq> 0\<close> show False by (simp add: closed_run_def)
  qed
qed

lemma run_from_closed_runs:
  assumes "i + length ys = length xs" and "drop i xs = ys" and "open_at xs i st"
  shows "set (run_from st i ys) = {(s, e). closed_run xs s e \<and> i \<le> Suc e}"
  using assms
proof (induction ys arbitrary: i st)
  case Nil
  then show ?case by (auto simp: closed_run_def)
next
  case (Cons b ys)
  from Cons.prems have len: "Suc i + length ys = length xs" by simp
  from Cons.prems have i: "i < length xs" by simp
  from Cons.prems(2) have b: "xs ! i = b"
    using i by (metis nth_via_drop)
  from Cons.prems(2) have dr: "drop (Suc i) xs = ys"
    by (metis drop_Suc tl_drop list.sel(3))
  note IH = Cons.IH [OF len dr]
  have split: "\<And>P. {(s, e). P s e \<and> i \<le> Suc e} =
       {(s, e). P s e \<and> Suc e = i} \<union> {(s, e). P s e \<and> Suc i \<le> Suc e}"
    by auto
  show ?case
  proof (cases b)
    case True
    have none: "{(s, e). closed_run xs s e \<and> Suc e = i} = {}"
      using True b by (auto simp: closed_run_def)
    show ?thesis
    proof (cases st)
      case None
      have "open_at xs (Suc i) (Some i)"
        using Cons.prems(3) None True b by (auto simp: open_at_def le_less_Suc_eq)
      from IH [OF this] True None show ?thesis by (simp add: split [of "closed_run xs"] none)
    next
      case (Some s0)
      have "open_at xs (Suc i) (Some s0)"
        using Cons.prems(3) Some True b by (auto simp: open_at_def less_Suc_eq)
      from IH [OF this] True Some show ?thesis by (simp add: split [of "closed_run xs"] none)
    qed
  next
    case False
    have o: "open_at xs (Suc i) None" using False b by (simp add: open_at_def)
    show ?thesis
    proof (cases st)
      case None
      have none: "{(s, e). closed_run xs s e \<and> Suc e = i} = {}"
      proof -
        have "\<not> closed_run xs s e" if "Suc e = i" for s e
        proof
          assume c: "closed_run xs s e"
          then have "s \<le> e" by (simp add: closed_run_def)
          with c have "xs ! e" using closed_run_all [of xs s e e] by simp
          moreover from Cons.prems(3) None that have "\<not> xs ! e" by (auto simp: open_at_def)
          ultimately show False by simp
        qed
        then show ?thesis by auto
      qed
      from IH [OF o] False None show ?thesis by (simp add: split [of "closed_run xs"] none)
    next
      case (Some s0)
      have op: "open_at xs i (Some s0)" using Cons.prems(3) Some by simp
      have cr: "closed_run xs s0 (i - 1)"
        using op False b i by (auto simp: open_at_def closed_run_def list_all_iff)
      have i0: "i \<noteq> 0" using op by (auto simp: open_at_def)
      have one: "{(s, e). closed_run xs s e \<and> Suc e = i} = {(s0, i - 1)}"
      proof (rule set_eqI, clarify, rule iffI)
        fix s e assume "(s, e) \<in> {(s, e). closed_run xs s e \<and> Suc e = i}"
        then have c: "closed_run xs s e" and e: "Suc e = i" by simp_all
        from closed_run_start_unique [OF c op e] e show "(s, e) \<in> {(s0, i - 1)}" by auto
      next
        fix s e assume "(s, e) \<in> {(s0, i - 1)}"
        with cr i0 show "(s, e) \<in> {(s, e). closed_run xs s e \<and> Suc e = i}" by simp
      qed
      from IH [OF o] False Some show ?thesis by (simp add: split [of "closed_run xs"] one)
    qed
  qed
qed

lemma run_from_starts:
  assumes "(s, e) \<in> set (run_from st i ys)"
  shows "(case st of None \<Rightarrow> i \<le> s | Some s0 \<Rightarrow> s = s0 \<or> i \<le> s)"
  using assms
proof (induction ys arbitrary: i st)
  case Nil
  then show ?case by simp
next
  case (Cons b ys)
  show ?case
  proof (cases st)
    case None
    with Cons.prems have "(s, e) \<in> set (run_from (Some i) (Suc i) ys) \<or>
        (s, e) \<in> set (run_from None (Suc i) ys)" by (simp split: if_splits)
    with Cons.IH [of "Some i" "Suc i"] Cons.IH [of None "Suc i"] None show ?thesis by auto
  next
    case (Some s0)
    with Cons.prems have "(s, e) = (s0, i - 1) \<or> (s, e) \<in> set (run_from None (Suc i) ys) \<or>
        (s, e) \<in> set (run_from (Some s0) (Suc i) ys)" by (auto split: if_splits)
    with Cons.IH [of None "Suc i"] Cons.IH [of "Some s0" "Suc i"] Some show ?thesis by auto
  qed
qed

lemma run_from_sorted: "sorted_wrt (\<lambda>a b. snd a < fst b) (run_from st i ys)"
proof (induction ys arbitrary: i st)
  case Nil
  then show ?case by simp
next
  case (Cons b ys)
  have "\<forall>p\<in>set (run_from None (Suc i) ys). i - 1 < fst p"
  proof
    fix p assume "p \<in> set (run_from None (Suc i) ys)"
    then have "(fst p, snd p) \<in> set (run_from None (Suc i) ys)" by simp
    from run_from_starts [OF this] show "i - 1 < fst p" by simp
  qed
  with Cons.IH show ?case by simp
qed

lemma np_le_trans:
  assumes "a \<noteq> NaN" "b \<noteq> NaN" "c \<noteq> NaN" and "\<not> np_less b a" and "\<not> np_less c b"
  shows "\<not> np_less c a"
  using assms by (cases a; cases b; cases c) simp_all

lemma np_min_cases: "np_min z a = z \<or> np_min z a = a"
  by (simp add: np_min_def)

lemma np_min_le:
  assumes "a \<noteq> NaN" "z \<noteq> NaN"
  shows "\<not> np_less a (np_min z a)" and "\<not> np_less z (np_min z a)"
  using assms by (cases a; cases z; simp add: np_min_def)+

lemma fold_np_min_is_min:
  assumes "a \<noteq> NaN" and "NaN \<notin> set ys"
  shows "(fold np_min ys a = a \<or> fold np_min ys a \<in> set ys) \<and>
         \<not> np_less a (fold np_min ys a) \<and>
         (\<forall>x\<in>set ys. \<not> np_less x (fold np_min ys a)) \<and> fold np_min ys a \<noteq> NaN"
  using assms
proof (induction ys arbitrary: a)
  case Nil
  then show ?case by (cases a) simp_all
next
  case (Cons z zs)
  let ?a' = "np_min z a"
  let ?r = "fold np_min zs ?a'"
  from Cons.prems have z: "z \<noteq> NaN" and zs: "NaN \<notin> set zs" by auto
  have a': "?a' \<noteq> NaN" using np_min_cases [of z a] z Cons.prems(1) by auto
  from Cons.IH [OF a' zs] have
    mem: "?r = ?a' \<or> ?r \<in> set zs" and le: "\<not> np_less ?a' ?r"
    and all: "\<forall>x\<in>set zs. \<not> np_less x ?r" and r: "?r \<noteq> NaN" by simp_all
  have ra: "\<not> np_less a ?r"
    by (rule np_le_trans [OF r a' Cons.prems(1) le np_min_le(1) [OF Cons.prems(1) z]])
  have rz: "\<not> np_less z ?r"
    by (rule np_le_trans [OF r a' z le np_min_le(2) [OF Cons.prems(1) z]])
  have "?r = a \<or> ?r \<in> set (z # zs)" using mem np_min_cases [of z a] by auto
  with ra rz all r show ?case by simp
qed

lemma series_min_is_min:
  assumes "xs \<noteq> []" and "NaN \<notin> set xs"
  shows "series_min xs \<in> set xs \<and> (\<forall>x\<in>set xs. \<not> np_less x (series_min xs))"
proof -
  from assms obtain y ys where xs: "xs = y # ys" by (cases xs) auto
  have dn: "dropna xs = xs" using assms(2) by (simp add: dropna_def filter_id_conv) metis
  have sm: "series_min xs = fold np_min ys y" unfolding series_min_def dn by (simp add: xs)
  from assms(2) xs have "y \<noteq> NaN" "NaN \<notin> set ys" by auto
  from fold_np_min_is_min [OF this]
  have "fold np_min ys y \<in> set (y # ys) \<and> (\<forall>x\<in>set (y # ys). \<not> np_less x (fold np_min ys y))"
    by auto
  then show ?thesis unfolding sm unfolding xs .
qed

lemma length_drawdown [simp]: "length (drawdown pv) = length pv"
  by (simp add: drawdown_def)

lemma length_in_drawdown [simp]: "length (in_drawdown pv) = length pv"
  by (simp add: in_drawdown_def drawdown_pct_def)

lemma in_drawdown_not_nan:
  assumes "k < length pv" and "in_drawdown pv ! k"
  shows "drawdown_pct pv ! k \<noteq> NaN"
proof
  assume "drawdown_pct pv ! k = NaN"
  moreover have "in_drawdown pv ! k = np_less (drawdown_pct pv ! k) (Fin (- (1 / 10)))"
    using assms(1) by (simp add: in_drawdown_def drawdown_pct_def)
  ultimately show False using assms(2) by simp
qed

lemma closed_run_slice:
  assumes c: "closed_run (in_drawdown pv) s e"
  shows "iloc_slice (drawdown_pct pv) s (Suc e) \<noteq> [] \<and>
         NaN \<notin> set (iloc_slice (drawdown_pct pv) s (Suc e))"
proof -
  from c have se: "s \<le> e" and e: "Suc e < length pv" by (simp_all add: closed_run_def)
  have len: "length (drawdown_pct pv) = length pv" by (simp add: drawdown_pct_def)
  have l: "length (iloc_slice (drawdown_pct pv) s (Suc e)) = Suc e - s"
    using e se by (simp add: iloc_slice_def len)
  then have ne: "iloc_slice (drawdown_pct pv) s (Suc e) \<noteq> []" using se by auto
  have "x \<noteq> NaN" if "x \<in> set (iloc_slice (drawdown_pct pv) s (Suc e))" for x
  proof -
    from that obtain j where j: "j < Suc e - s" and x: "x = iloc_slice (drawdown_pct pv) s (Suc e) ! j"
      using l by (metis in_set_conv_nth)
    have "x = drawdown_pct pv ! (s + j)" using j e x by (simp add: iloc_slice_def len)
    moreover have "in_drawdown pv ! (s + j)" using closed_run_all [OF c, of "s + j"] j by simp
    moreover have "s + j < length pv" using j e by simp
    ultimately show ?thesis using in_drawdown_not_nan by simp
  qed
  with ne show ?thesis by blast
qed


text \<open>
  C8. \<open>drawdown_analysis\<close> returns exactly one period for each closed run of points
  whose drawdown is below -0.1%, in order of time. The period of the run \<open>s..e\<close> holds
  the timestamp of \<open>s\<close> as start, the timestamp of \<open>e\<close> as end and as recovery date, the
  whole days between the two as duration, and the minimum of the run's drawdowns (a
  value of the run that none of the run is below). A run that reaches the last point is
  not closed: no period contains any of its points.
\<close>

theorem drawdown_episodes:
  "\<exists>runs.
     drawdown_analysis equity_df =
       map (\<lambda>(s, e).
             \<lparr>start_date = timestamp (equity_df ! s),
              end_date = timestamp (equity_df ! e),
              duration_days = (timestamp (equity_df ! e) - timestamp (equity_df ! s)) div day,
              max_drawdown_pct =
                series_min (iloc_slice (drawdown_pct (map portfolio_value equity_df)) s (Suc e)),
              recovery_date = timestamp (equity_df ! e)\<rparr>) runs \<and>
     sorted_wrt (\<lambda>a b. snd a < fst b) runs \<and>
     (\<forall>s e. (s, e) \<in> set runs \<longleftrightarrow> closed_run (in_drawdown (map portfolio_value equity_df)) s e) \<and>
     (\<forall>r\<in>set runs.
        series_min (iloc_slice (drawdown_pct (map portfolio_value equity_df)) (fst r) (Suc (snd r)))
          \<in> set (iloc_slice (drawdown_pct (map portfolio_value equity_df)) (fst r) (Suc (snd r))) \<and>
        (\<forall>d\<in>set (iloc_slice (drawdown_pct (map portfolio_value equity_df)) (fst r) (Suc (snd r))).
           \<not> np_less d
             (series_min (iloc_slice (drawdown_pct (map portfolio_value equity_df)) (fst r) (Suc (snd r)))))) \<and>
     (\<forall>s. (\<forall>k. s \<le> k \<and> k < length equity_df \<longrightarrow> in_drawdown (map portfolio_value equity_df) ! k) \<longrightarrow>
          (\<forall>r\<in>set runs. snd r < s))"
proof -
  define pv where "pv = map portfolio_value equity_df"
  define xs where "xs = in_drawdown pv"
  define runs where "runs = run_from None 0 xs"
  have len: "length xs = length equity_df" by (simp add: xs_def pv_def)
  have A: "drawdown_analysis equity_df =
       map (\<lambda>(s, e).
             \<lparr>start_date = timestamp (equity_df ! s),
              end_date = timestamp (equity_df ! e),
              duration_days = (timestamp (equity_df ! e) - timestamp (equity_df ! s)) div day,
              max_drawdown_pct = series_min (iloc_slice (drawdown_pct pv) s (Suc e)),
              recovery_date = timestamp (equity_df ! e)\<rparr>) runs"
  proof (cases "equity_df = []")
    case True
    then show ?thesis by (simp add: drawdown_analysis_def runs_def xs_def pv_def in_drawdown_def
          drawdown_pct_def drawdown_def)
  next
    case False
    then show ?thesis
      by (simp add: drawdown_analysis_def Let_def drawdown_loop_run_from runs_def xs_def pv_def
          close_period_def)
  qed
  have B: "sorted_wrt (\<lambda>a b. snd a < fst b) runs" unfolding runs_def by (rule run_from_sorted)
  have "set runs = {(s, e). closed_run xs s e \<and> 0 \<le> Suc e}"
    unfolding runs_def by (rule run_from_closed_runs) (simp_all add: open_at_def)
  then have C: "\<forall>s e. (s, e) \<in> set runs \<longleftrightarrow> closed_run xs s e" by auto
  have D: "\<forall>r\<in>set runs.
        series_min (iloc_slice (drawdown_pct pv) (fst r) (Suc (snd r)))
          \<in> set (iloc_slice (drawdown_pct pv) (fst r) (Suc (snd r))) \<and>
        (\<forall>d\<in>set (iloc_slice (drawdown_pct pv) (fst r) (Suc (snd r))).
           \<not> np_less d (series_min (iloc_slice (drawdown_pct pv) (fst r) (Suc (snd r)))))"
  proof
    fix r assume "r \<in> set runs"
    then have "(fst r, snd r) \<in> set runs" by simp
    then have "closed_run xs (fst r) (snd r)" using C by blast
    from closed_run_slice [OF this [unfolded xs_def]]
    show "series_min (iloc_slice (drawdown_pct pv) (fst r) (Suc (snd r)))
          \<in> set (iloc_slice (drawdown_pct pv) (fst r) (Suc (snd r))) \<and>
        (\<forall>d\<in>set (iloc_slice (drawdown_pct pv) (fst r) (Suc (snd r))).
           \<not> np_less d (series_min (iloc_slice (drawdown_pct pv) (fst r) (Suc (snd r)))))"
      by (intro series_min_is_min) simp_all
  qed
  have E: "\<forall>s. (\<forall>k. s \<le> k \<and> k < length equity_df \<longrightarrow> xs ! k) \<longrightarrow> (\<forall>r\<in>set runs. snd r < s)"
  proof (intro allI impI ballI)
    fix s r assume tail: "\<forall>k. s \<le> k \<and> k < length equity_df \<longrightarrow> xs ! k" and r: "r \<in> set runs"
    from r have "(fst r, snd r) \<in> set runs" by simp
    then have c: "closed_run xs (fst r) (snd r)" using C by blast
    then have e: "Suc (snd r) < length equity_df" "\<not> xs ! Suc (snd r)"
      using len by (simp_all add: closed_run_def)
    show "snd r < s"
    proof (rule ccontr)
      assume "\<not> snd r < s"
      then have "s \<le> Suc (snd r)" by simp
      with tail e show False by blast
    qed
  qed
  from A B C D E show ?thesis unfolding pv_def xs_def by blast
qed

lemma in_drawdown_example:
  "in_drawdown [100, 90, 95, 100, 80] = [False, True, True, False, True]"
  by (simp add: in_drawdown_def drawdown_pct_def drawdown_def)

theorem drawdown_episodes_witness:
  "closed_run (in_drawdown (map portfolio_value (curve_of [100, 90, 95, 100, 80]))) 1 2 \<and>
   last (in_drawdown (map portfolio_value (curve_of [100, 90, 95, 100, 80]))) \<and>
   drawdown_analysis (curve_of [100, 90, 95, 100, 80]) =
     [\<lparr>start_date = day, end_date = 2 * day, duration_days = 1,
       max_drawdown_pct = Fin (- 10), recovery_date = 2 * day\<rparr>] \<and>
   (\<exists>runs. (1, 2) \<in> set runs \<and>
      drawdown_analysis (curve_of [100, 90, 95, 100, 80]) =
        map (\<lambda>(s, e).
             \<lparr>start_date = timestamp (curve_of [100, 90, 95, 100, 80] ! s),
              end_date = timestamp (curve_of [100, 90, 95, 100, 80] ! e),
              duration_days = (timestamp (curve_of [100, 90, 95, 100, 80] ! e) -
                               timestamp (curve_of [100, 90, 95, 100, 80] ! s)) div day,
              max_drawdown_pct =
                series_min (iloc_slice (drawdown_pct
                  (map portfolio_value (curve_of [100, 90, 95, 100, 80]))) s (Suc e)),
              recovery_date = timestamp (curve_of [100, 90, 95, 100, 80] ! e)\<rparr>) runs)"
proof -
  let ?c = "curve_of [100, 90, 95, 100, 80]"
  have pv: "map portfolio_value ?c = [100, 90, 95, 100, 80]" by (simp add: curve_of_5)
  have cr: "closed_run (in_drawdown (map portfolio_value ?c)) 1 2"
    by (simp add: pv in_drawdown_example closed_run_def eval_nat_numeral upt_rec)
  have la: "last (in_drawdown (map portfolio_value ?c))"
    by (simp add: pv in_drawdown_example)
  have ev: "drawdown_analysis ?c =
     [\<lparr>start_date = day, end_date = 2 * day, duration_days = 1,
       max_drawdown_pct = Fin (- 10), recovery_date = 2 * day\<rparr>]"
    by (simp add: drawdown_analysis_def pv in_drawdown_example Let_def)
       (simp add: curve_of_5 close_period_def iloc_slice_def drawdown_pct_def drawdown_def
          series_min_def dropna_def np_min_def Let_def day_def)
  from drawdown_episodes [of ?c] cr
  have "\<exists>runs. (1, 2) \<in> set runs \<and>
      drawdown_analysis ?c =
        map (\<lambda>(s, e).
             \<lparr>start_date = timestamp (?c ! s), end_date = timestamp (?c ! e),
              duration_days = (timestamp (?c ! e) - timestamp (?c ! s)) div day,
              max_drawdown_pct =
                series_min (iloc_slice (drawdown_pct (map portfolio_value ?c)) s (Suc e)),
              recovery_date = timestamp (?c ! e)\<rparr>) runs"
    by blast
  with cr la ev show ?thesis by blast
qed

subsection \<open>Sharpe and Sortino ratios\<close>

text \<open>
  C7. On degenerate input both ratios are to be 0, never NaN. The curve 100, 100 is
  constant and has two points, so the guard \<open>len(self.equity_df) < 2\<close> lets it pass;
  it has one return, and the sample standard deviation of one value is NaN, which
  the test \<open>std() == 0\<close> does not catch: both functions return NaN.
\<close>

theorem sharpe_sortino_nan_on_two_points:
  "calculate_sharpe_ratio (curve_of [100, 100]) (2 / 100) = NaN \<and>
   calculate_sortino_ratio (curve_of [100, 100]) (2 / 100) = NaN \<and>
   dropna (pct_change [100, 100]) = [Fin 0] \<and>
   series_std [Fin (0 - 2 / 100 / 252)] = NaN"
  by (simp add: curve_of_2 calculate_sharpe_ratio_def calculate_sortino_ratio_def dropna_def
      series_std_def series_mean_def series_sum_def np_sub_def Let_def)

text \<open>With fewer than two points both functions return 0.\<close>

lemma sharpe_sortino_short_curve:
  assumes "length equity_df < 2"
  shows "calculate_sharpe_ratio equity_df rf = Fin 0"
    and "calculate_sortino_ratio equity_df rf = Fin 0"
  using assms by (simp_all add: calculate_sharpe_ratio_def calculate_sortino_ratio_def)

end
